theory Spec2Isabelle
  imports Complex_Main "HOL-Library.AList"
begin

section \<open>Values shared by the helpers of \<^verbatim>\<open>experiment_utils.py\<close>\<close>

text \<open>
  Exceptions of the Python program are values: every function that can raise returns
  \<open>py_error + 'a\<close>, with \<open>Inl\<close> the exception. \<open>Collaborator\<close> carries the message of an
  exception raised inside a routine that the file calls but does not define.
\<close>

datatype py_error = ValueError | IndexError | KeyError | Collaborator string

text \<open>
  A numpy \<^verbatim>\<open>float64\<close>. Finite values are exact rationals (rounding is not modelled, and
  zero is the positive zero); the two infinities and NaN are the values that a division by
  zero produces.
\<close>

datatype npfloat = Fin rat | PInf | NInf | NaN

fun is_neg :: "npfloat \<Rightarrow> bool" where
  "is_neg (Fin a) = (a < 0)"
| "is_neg NInf = True"
| "is_neg PInf = False"
| "is_neg NaN = False"

fun np_neg :: "npfloat \<Rightarrow> npfloat" where
  "np_neg (Fin a) = Fin (- a)"
| "np_neg PInf = NInf"
| "np_neg NInf = PInf"
| "np_neg NaN = NaN"

fun np_add :: "npfloat \<Rightarrow> npfloat \<Rightarrow> npfloat" where
  "np_add (Fin a) (Fin b) = Fin (a + b)"
| "np_add NaN y = NaN"
| "np_add x NaN = NaN"
| "np_add PInf NInf = NaN"
| "np_add NInf PInf = NaN"
| "np_add PInf y = PInf"
| "np_add x PInf = PInf"
| "np_add NInf y = NInf"
| "np_add x NInf = NInf"

definition np_sub :: "npfloat \<Rightarrow> npfloat \<Rightarrow> npfloat" where
  "np_sub x y = np_add x (np_neg y)"

fun np_mul :: "npfloat \<Rightarrow> npfloat \<Rightarrow> npfloat" where
  "np_mul (Fin a) (Fin b) = Fin (a * b)"
| "np_mul NaN y = NaN"
| "np_mul x NaN = NaN"
| "np_mul x y =
     (if x = Fin 0 \<or> y = Fin 0 then NaN
      else if is_neg x = is_neg y then PInf else NInf)"

fun np_div :: "npfloat \<Rightarrow> npfloat \<Rightarrow> npfloat" where
  "np_div NaN y = NaN"
| "np_div x NaN = NaN"
| "np_div (Fin a) (Fin b) =
     (if b = 0 then (if a = 0 then NaN else if a < 0 then NInf else PInf)
      else Fin (a / b))"
| "np_div (Fin a) y = Fin 0"
| "np_div x (Fin b) = (if is_neg x = (b < 0) then PInf else NInf)"
| "np_div x y = NaN"

text \<open>The comparison \<^verbatim>\<open><=\<close> of two floats: false as soon as one side is NaN.\<close>

fun np_le :: "npfloat \<Rightarrow> npfloat \<Rightarrow> bool" where
  "np_le NaN y = False"
| "np_le x NaN = False"
| "np_le NInf y = True"
| "np_le x PInf = True"
| "np_le (Fin a) (Fin b) = (a \<le> b)"
| "np_le x y = False"

text \<open>
  An arithmetic operator on two one-dimensional arrays: elementwise on equal lengths, an
  array of length one is broadcast, any other pair of shapes raises \<^verbatim>\<open>ValueError\<close>.
\<close>

definition np_elementwise ::
  "(npfloat \<Rightarrow> npfloat \<Rightarrow> npfloat) \<Rightarrow> npfloat list \<Rightarrow> npfloat list \<Rightarrow> py_error + npfloat list" where
  "np_elementwise f xs ys =
     (if length xs = length ys then Inr (map (\<lambda>(x, y). f x y) (zip xs ys))
      else if length xs = 1 then Inr (map (f (hd xs)) ys)
      else if length ys = 1 then Inr (map (\<lambda>x. f x (hd ys)) xs)
      else Inl ValueError)"

text \<open>
  \<^verbatim>\<open>np.argmax\<close> on a one-dimensional float array: the scan keeps the first element that
  is not \<^verbatim>\<open><=\<close> the running maximum, and stops at the first NaN, which it returns. An
  empty array raises \<^verbatim>\<open>ValueError\<close>.
\<close>

fun argmax_scan :: "npfloat list \<Rightarrow> nat \<Rightarrow> npfloat \<Rightarrow> nat \<Rightarrow> nat" where
  "argmax_scan [] i mp max_ind = max_ind"
| "argmax_scan (x # xs) i mp max_ind =
     (if \<not> np_le x mp then (if x = NaN then i else argmax_scan xs (Suc i) x i)
      else argmax_scan xs (Suc i) mp max_ind)"

definition np_argmax :: "npfloat list \<Rightarrow> py_error + nat" where
  "np_argmax xs =
     (case xs of
        [] \<Rightarrow> Inl ValueError
      | x # rest \<Rightarrow> Inr (if x = NaN then 0 else argmax_scan rest 1 x 0))"

text \<open>Reading \<^verbatim>\<open>a[i]\<close> for a non-negative index.\<close>

definition np_index :: "'a list \<Rightarrow> nat \<Rightarrow> py_error + 'a" where
  "np_index xs i = (if i < length xs then Inr (xs ! i) else Inl IndexError)"

section \<open>\<^verbatim>\<open>get_best_threshold\<close>\<close>

text \<open>
  \<^verbatim>\<open>f_scores = 2*(P*R)/(P+R)\<close>, the three array operators in the order numpy evaluates
  them.
\<close>

definition f_scores :: "npfloat list \<Rightarrow> npfloat list \<Rightarrow> py_error + npfloat list" where
  "f_scores P R =
     (case np_elementwise np_mul P R of
        Inl e \<Rightarrow> Inl e
      | Inr PR \<Rightarrow>
          (case np_elementwise np_add P R of
             Inl e \<Rightarrow> Inl e
           | Inr PplusR \<Rightarrow> np_elementwise np_div (map (np_mul (Fin 2)) PR) PplusR))"

text \<open>
  \<^verbatim>\<open>metrics.roc_curve\<close> belongs to scikit-learn, not to this repository: it is the
  parameter \<open>roc_curve\<close>, called with \<^verbatim>\<open>pos_label=1\<close>, which returns the three arrays
  \<^verbatim>\<open>fpr, tpr, thresholds\<close> or raises. The plot drawn when \<open>plot\<close> is set changes no
  returned value and is left out.
\<close>

definition get_best_threshold ::
  "(int list \<Rightarrow> npfloat list \<Rightarrow> py_error + (npfloat list \<times> npfloat list \<times> npfloat list)) \<Rightarrow>
   int list \<Rightarrow> npfloat list \<Rightarrow> bool \<Rightarrow> py_error + (npfloat \<times> npfloat)" where
  "get_best_threshold roc_curve Y_ref Y_pred_score plot =
     (case roc_curve Y_ref Y_pred_score of
        Inl e \<Rightarrow> Inl e
      | Inr (fpr, tpr, thresholds) \<Rightarrow>
          (let P = map (np_sub (Fin 1)) fpr; R = tpr in
           case f_scores P R of
             Inl e \<Rightarrow> Inl e
           | Inr fs \<Rightarrow>
               (case np_argmax fs of
                  Inl e \<Rightarrow> Inl e
                | Inr i \<Rightarrow>
                    (case np_index thresholds i of
                       Inl e \<Rightarrow> Inl e
                     | Inr best_threshold \<Rightarrow> Inr (best_threshold, fs ! i)))))"

text \<open>
  The claims speak of valid reference labels (binary, both classes present) and of the
  value \<open>2PR/(P+R)\<close> with \<open>P = 1 - FPR\<close> and \<open>R = TPR\<close>; these two definitions
  follow those words, for comparison with what the code computes.
\<close>

definition binary_labels :: "int list \<Rightarrow> bool" where
  "binary_labels Y_ref \<longleftrightarrow> set Y_ref \<subseteq> {0, 1} \<and> 0 \<in> set Y_ref \<and> 1 \<in> set Y_ref"

definition fscore_formula :: "rat \<Rightarrow> rat \<Rightarrow> rat" where
  "fscore_formula fpr tpr = (let P = 1 - fpr; R = tpr in 2 * (P * R) / (P + R))"

section \<open>Data frames and dictionaries\<close>

text \<open>
  A pandas \<^verbatim>\<open>DataFrame\<close> of contours: the number of rows and the named columns, each
  a list of finite numbers with one entry per row, in row order. A Python \<^verbatim>\<open>dict\<close> is an
  association list read with \<open>map_of\<close> and written with \<open>AList.update\<close>.
\<close>

record dataframe =
  nrows :: nat
  cols :: "(string \<times> rat list) list"

type_synonym ('k, 'v) dict = "('k \<times> 'v) list"

text \<open>\<^verbatim>\<open>df[c]\<close>: the column, or \<^verbatim>\<open>KeyError\<close>.\<close>

definition get_column :: "dataframe \<Rightarrow> string \<Rightarrow> py_error + rat list" where
  "get_column df c = (case map_of (cols df) c of None \<Rightarrow> Inl KeyError | Some vs \<Rightarrow> Inr vs)"

text \<open>\<^verbatim>\<open>df[c] = v\<close> for a scalar: the value on every row.\<close>

definition set_column_scalar :: "dataframe \<Rightarrow> string \<Rightarrow> rat \<Rightarrow> dataframe" where
  "set_column_scalar df c v = df\<lparr>cols := AList.update c (replicate (nrows df) v) (cols df)\<rparr>"

text \<open>\<^verbatim>\<open>df[c] = vs\<close> for a list: \<^verbatim>\<open>ValueError\<close> unless there is one value per row.\<close>

definition set_column_list :: "dataframe \<Rightarrow> string \<Rightarrow> rat list \<Rightarrow> py_error + dataframe" where
  "set_column_list df c vs =
     (if length vs = nrows df then Inr (df\<lparr>cols := AList.update c vs (cols df)\<rparr>)
      else Inl ValueError)"

section \<open>\<^verbatim>\<open>get_data_files\<close> and \<^verbatim>\<open>compute_all_overlaps\<close>\<close>

text \<open>
  What the two functions reach outside the file: the process environment and three
  routines of \<^verbatim>\<open>contour_classification.contour_utils\<close>, which read files and compare a
  contour table with an annotation. They are parameters, each returning its result or
  raising.
\<close>

record ('c, 'a) collaborators =
  environ :: "string \<rightharpoonup> string"
  load_contour_data :: "string \<Rightarrow> py_error + 'c"
  load_annotation :: "string \<Rightarrow> py_error + 'a"
  compute_overlap :: "'c \<Rightarrow> 'a \<Rightarrow> py_error + 'c"

text \<open>\<^verbatim>\<open>str\<close> of an integer, and \<^verbatim>\<open>os.path.join\<close> of two components (POSIX).\<close>

function str_nat :: "nat \<Rightarrow> string" where
  "str_nat n =
     (if n < 10 then [''0123456789'' ! n]
      else str_nat (n div 10) @ [''0123456789'' ! (n mod 10)])"
  by pat_completeness auto
termination
  by (relation "measure id") auto

declare str_nat.simps [simp del]

definition str_int :: "int \<Rightarrow> string" where
  "str_int i = (if i < 0 then CHR ''-'' # str_nat (nat (- i)) else str_nat (nat i))"

definition path_join :: "string \<Rightarrow> string \<Rightarrow> string" where
  "path_join a b =
     (if b \<noteq> [] \<and> hd b = CHR ''/'' then b
      else if a = [] \<or> last a = CHR ''/'' then a @ b
      else a @ ''/'' @ b)"

definition get_data_files ::
  "('c, 'a) collaborators \<Rightarrow> string \<Rightarrow> int \<Rightarrow> py_error + ('c \<times> 'a)" where
  "get_data_files w track meltype =
     (let contour_suffix = ''MIX_vamp_melodia-contours_melodia-contours_contoursall.csv'';
          contours_path = ''melodia_contours'';
          annot_suffix = ''MELODY'' @ str_int meltype @ ''.csv'';
          mel_dir = ''MELODY'' @ str_int meltype
      in case environ w ''MEDLEYDB_PATH'' of
           None \<Rightarrow> Inl KeyError
         | Some medleydb_path \<Rightarrow>
             (let annot_path =
                    path_join (path_join (path_join medleydb_path ''Annotations'') ''Melody_Annotations'')
                      mel_dir;
                  contour_fname = track @ ''_'' @ contour_suffix;
                  contour_fpath = path_join contours_path contour_fname;
                  annot_fname = track @ ''_'' @ annot_suffix;
                  annot_fpath = path_join annot_path annot_fname
              in case load_contour_data w contour_fpath of
                   Inl e \<Rightarrow> Inl e
                 | Inr cdat \<Rightarrow>
                     (case load_annotation w annot_fpath of
                        Inl e \<Rightarrow> Inl e
                      | Inr adat \<Rightarrow> Inr (cdat, adat))))"

text \<open>
  The loop over the training tracks, then the loop that the validation and the test
  tracks both go through, which also keeps a copy of the annotation. The progress
  messages printed on the way are left out.
\<close>

fun train_loop ::
  "('c, 'a) collaborators \<Rightarrow> string list \<Rightarrow> int \<Rightarrow> (string, 'c) dict \<Rightarrow>
   py_error + (string, 'c) dict" where
  "train_loop w [] meltype contour_dict = Inr contour_dict"
| "train_loop w (track # tracks) meltype contour_dict =
     (case get_data_files w track meltype of
        Inl e \<Rightarrow> Inl e
      | Inr (cdat, adat) \<Rightarrow>
          (case compute_overlap w cdat adat of
             Inl e \<Rightarrow> Inl e
           | Inr olap \<Rightarrow> train_loop w tracks meltype (AList.update track olap contour_dict)))"

fun annot_loop ::
  "('c, 'a) collaborators \<Rightarrow> string list \<Rightarrow> int \<Rightarrow> (string, 'c) dict \<Rightarrow> (string, 'a) dict \<Rightarrow>
   py_error + ((string, 'c) dict \<times> (string, 'a) dict)" where
  "annot_loop w [] meltype contour_dict annot_dict = Inr (contour_dict, annot_dict)"
| "annot_loop w (track # tracks) meltype contour_dict annot_dict =
     (case get_data_files w track meltype of
        Inl e \<Rightarrow> Inl e
      | Inr (cdat, adat) \<Rightarrow>
          (case compute_overlap w cdat adat of
             Inl e \<Rightarrow> Inl e
           | Inr olap \<Rightarrow>
               annot_loop w tracks meltype (AList.update track olap contour_dict)
                 (AList.update track adat annot_dict)))"

definition compute_all_overlaps ::
  "('c, 'a) collaborators \<Rightarrow> string list \<Rightarrow> string list \<Rightarrow> string list \<Rightarrow> int \<Rightarrow>
   py_error + ((string, 'c) dict \<times> (string, 'c) dict \<times> (string, 'a) dict \<times>
               (string, 'c) dict \<times> (string, 'a) dict)" where
  "compute_all_overlaps w train_tracks valid_tracks test_tracks meltype =
     (case train_loop w train_tracks meltype [] of
        Inl e \<Rightarrow> Inl e
      | Inr train_contour_dict \<Rightarrow>
          (case annot_loop w valid_tracks meltype [] [] of
             Inl e \<Rightarrow> Inl e
           | Inr (valid_contour_dict, valid_annot_dict) \<Rightarrow>
               (case annot_loop w test_tracks meltype [] [] of
                  Inl e \<Rightarrow> Inl e
                | Inr (test_contour_dict, test_annot_dict) \<Rightarrow>
                    Inr (train_contour_dict, valid_contour_dict, valid_annot_dict,
                         test_contour_dict, test_annot_dict))))"

section \<open>\<^verbatim>\<open>olap_stats\<close>\<close>

text \<open>The loop that collects the \<^verbatim>\<open>overlap\<close> column of every data frame of the dict.\<close>

fun red_list :: "dataframe list \<Rightarrow> py_error + rat list list" where
  "red_list [] = Inr []"
| "red_list (cdat # rest) =
     (case get_column cdat ''overlap'' of
        Inl e \<Rightarrow> Inl e
      | Inr overlap \<Rightarrow>
          (case red_list rest of Inl e \<Rightarrow> Inl e | Inr others \<Rightarrow> Inr (overlap # others)))"

text \<open>
  Modelled from the spec: \<^verbatim>\<open>cc.join_contours\<close> is defined in
  \<^verbatim>\<open>contour_classification/contour_utils.py\<close>, which is not among the sources; the
  spec says that the overlap values of all tracks are concatenated.
\<close>

definition join_contours :: "rat list list \<Rightarrow> rat list" where
  "join_contours contours_list = concat contours_list"

text \<open>
  \<^verbatim>\<open>describe\<close> is the summary of pandas (count, mean, std, min, quartiles, max); it is
  the parameter \<open>describe\<close>, applied to each of the two selections.
\<close>

definition olap_stats :: "(rat list \<Rightarrow> 'd) \<Rightarrow> (string, dataframe) dict \<Rightarrow> py_error + ('d \<times> 'd)" where
  "olap_stats describe train_contour_dict =
     (case red_list (map snd train_contour_dict) of
        Inl e \<Rightarrow> Inl e
      | Inr red \<Rightarrow>
          (let overlap_dat = join_contours red;
               non_zero_olap = filter (\<lambda>v. v > 0) overlap_dat;
               zero_olap = filter (\<lambda>v. v = 0) overlap_dat;
               partial_olap_stats = describe non_zero_olap;
               zero_olap_stats = describe zero_olap
           in Inr (partial_olap_stats, zero_olap_stats)))"

section \<open>\<^verbatim>\<open>label_all_contours\<close>\<close>

text \<open>
  Modelled from the spec: \<^verbatim>\<open>cc.label_contours\<close> is defined in
  \<^verbatim>\<open>contour_classification/contour_utils.py\<close>, which is not among the sources; the
  spec says that every record gets \<open>label = 1\<close> if \<open>overlap > overlapThreshold\<close> and
  \<open>0\<close> otherwise. Reading the overlap of a frame that has no such column raises
  \<^verbatim>\<open>KeyError\<close>, as every column read does.
\<close>

definition label_contours :: "dataframe \<Rightarrow> rat \<Rightarrow> py_error + dataframe" where
  "label_contours contour_data olap_thresh =
     (case get_column contour_data ''overlap'' of
        Inl e \<Rightarrow> Inl e
      | Inr overlap \<Rightarrow>
          Inr (contour_data\<lparr>cols :=
                 AList.update ''label'' (map (\<lambda>v. if v > olap_thresh then 1 else 0) overlap)
                   (cols contour_data)\<rparr>))"

text \<open>One of the three loops: every key of the dict gets its frame relabelled.\<close>

fun label_keys ::
  "string list \<Rightarrow> (string, dataframe) dict \<Rightarrow> rat \<Rightarrow> py_error + (string, dataframe) dict" where
  "label_keys [] contour_dict olap_thresh = Inr contour_dict"
| "label_keys (key # keys) contour_dict olap_thresh =
     (case map_of contour_dict key of
        None \<Rightarrow> Inl KeyError
      | Some cdat \<Rightarrow>
          (case label_contours cdat olap_thresh of
             Inl e \<Rightarrow> Inl e
           | Inr labelled \<Rightarrow> label_keys keys (AList.update key labelled contour_dict) olap_thresh))"

definition label_all_contours ::
  "(string, dataframe) dict \<Rightarrow> (string, dataframe) dict \<Rightarrow> (string, dataframe) dict \<Rightarrow> rat \<Rightarrow>
   py_error + ((string, dataframe) dict \<times> (string, dataframe) dict \<times> (string, dataframe) dict)" where
  "label_all_contours train_contour_dict valid_contour_dict test_contour_dict olap_thresh =
     (case label_keys (map fst train_contour_dict) train_contour_dict olap_thresh of
        Inl e \<Rightarrow> Inl e
      | Inr train' \<Rightarrow>
          (case label_keys (map fst valid_contour_dict) valid_contour_dict olap_thresh of
             Inl e \<Rightarrow> Inl e
           | Inr valid' \<Rightarrow>
               (case label_keys (map fst test_contour_dict) test_contour_dict olap_thresh of
                  Inl e \<Rightarrow> Inl e
                | Inr test' \<Rightarrow> Inr (train', valid', test'))))"

section \<open>\<^verbatim>\<open>contour_probs\<close>\<close>

text \<open>
  The function writes into the data frame it is given, so the frame lives in a store and
  is passed by its address; the store after the call is returned with the result or the
  exception. \<^verbatim>\<open>cc.pd_to_sklearn\<close> and the classifier's \<^verbatim>\<open>predict_proba\<close> are
  parameters that read their argument and return a value or raise.
\<close>

type_synonym store = "nat \<Rightarrow> dataframe"

text \<open>\<^verbatim>\<open>[p[1] for p in probs]\<close>\<close>

fun mel_probs_of :: "rat list list \<Rightarrow> py_error + rat list" where
  "mel_probs_of [] = Inr []"
| "mel_probs_of (p # probs) =
     (case np_index p 1 of
        Inl e \<Rightarrow> Inl e
      | Inr v \<Rightarrow> (case mel_probs_of probs of Inl e \<Rightarrow> Inl e | Inr vs \<Rightarrow> Inr (v # vs)))"

definition contour_probs ::
  "(dataframe \<Rightarrow> py_error + ('x \<times> 'y)) \<Rightarrow> ('x \<Rightarrow> py_error + rat list list) \<Rightarrow> nat \<Rightarrow> store \<Rightarrow>
   (py_error + nat) \<times> store" where
  "contour_probs pd_to_sklearn clf contour_data s =
     (let s1 = s(contour_data := set_column_scalar (s contour_data) ''mel prob'' (- 1)) in
      case pd_to_sklearn (s1 contour_data) of
        Inl e \<Rightarrow> (Inl e, s1)
      | Inr (X, Y) \<Rightarrow>
          (case clf X of
             Inl e \<Rightarrow> (Inl e, s1)
           | Inr probs \<Rightarrow>
               (case mel_probs_of probs of
                  Inl e \<Rightarrow> (Inl e, s1)
                | Inr mel_probs \<Rightarrow>
                    (case set_column_list (s1 contour_data) ''mel prob'' mel_probs of
                       Inl e \<Rightarrow> (Inl e, s1)
                     | Inr df \<Rightarrow> (Inr contour_data, s1(contour_data := df))))))"


text \<open>
  What the claims say of a relabelled frame \<open>df'\<close> of a frame \<open>df\<close>: the same rows,
  every column but \<^verbatim>\<open>label\<close> as it was, and on every row the label is 1 exactly when
  the overlap is strictly greater than the threshold, and 0 exactly when it is not.
\<close>

definition labelled_frame :: "rat \<Rightarrow> dataframe \<Rightarrow> dataframe \<Rightarrow> bool" where
  "labelled_frame olap_thresh df df' \<longleftrightarrow>
     nrows df' = nrows df \<and>
     (\<forall>c. c \<noteq> ''label'' \<longrightarrow> map_of (cols df') c = map_of (cols df) c) \<and>
     (\<exists>overlap label.
        map_of (cols df) ''overlap'' = Some overlap \<and> map_of (cols df') ''label'' = Some label \<and>
        length label = length overlap \<and>
        (\<forall>i<length overlap.
           (label ! i = 1 \<longleftrightarrow> overlap ! i > olap_thresh) \<and>
           (label ! i = 0 \<longleftrightarrow> \<not> overlap ! i > olap_thresh)))"

text \<open>
  What the loops of \<^verbatim>\<open>compute_all_overlaps\<close> have for a track: the annotation that
  \<^verbatim>\<open>get_data_files\<close> loads, and the contour table with overlaps that
  \<^verbatim>\<open>compute_overlap\<close> makes of the loaded contours and that annotation.
\<close>

definition track_overlap ::
  "('c, 'a) collaborators \<Rightarrow> int \<Rightarrow> string \<Rightarrow> 'c \<Rightarrow> 'a \<Rightarrow> bool" where
  "track_overlap w meltype track olap adat \<longleftrightarrow>
     (\<exists>cdat. get_data_files w track meltype = Inr (cdat, adat) \<and>
             compute_overlap w cdat adat = Inr olap)"

section \<open>Properties of \<^verbatim>\<open>np.argmax\<close> and of the F-score array\<close>

lemma argmax_scan_bound: "max_ind < i \<Longrightarrow> argmax_scan xs i mp max_ind < i + length xs"
proof (induction xs arbitrary: i mp max_ind)
  case Nil
  then show ?case by simp
next
  case (Cons x xs)
  have a: "argmax_scan xs (Suc i) x i < Suc i + length xs"
    by (rule Cons.IH) simp
  have b: "argmax_scan xs (Suc i) mp max_ind < Suc i + length xs"
    by (rule Cons.IH) (use Cons.prems in simp)
  show ?case using a b by simp
qed

lemma np_argmax_bound: "np_argmax xs = Inr i \<Longrightarrow> i < length xs"
  using argmax_scan_bound[of 0 1]
  by (auto simp: np_argmax_def split: list.splits if_splits)

lemma np_argmax_nonempty: "xs \<noteq> [] \<Longrightarrow> \<exists>i. np_argmax xs = Inr i"
  by (cases xs) (simp_all add: np_argmax_def)



lemma f_scores_eq_len:
  "length P = length R \<Longrightarrow>
   f_scores P R = Inr (map (\<lambda>(p, r). np_div (np_mul (Fin 2) (np_mul p r)) (np_add p r)) (zip P R))"
  by (simp add: f_scores_def np_elementwise_def zip_map1 zip_map2 zip_same_conv_map split_def)


lemma get_best_threshold_returns:
  assumes "roc_curve Y_ref Y_pred_score = Inr (fpr, tpr, thresholds)"
    "length tpr = length fpr" "length thresholds = length fpr" "fpr \<noteq> []"
  shows "\<exists>i fs. f_scores (map (np_sub (Fin 1)) fpr) tpr = Inr fs \<and> np_argmax fs = Inr i \<and>
           i < length fpr \<and> length fs = length fpr \<and>
           get_best_threshold roc_curve Y_ref Y_pred_score plot = Inr (thresholds ! i, fs ! i)"
proof -
  obtain fs where fs: "f_scores (map (np_sub (Fin 1)) fpr) tpr = Inr fs" "length fs = length fpr"
    using assms(2) by (simp add: f_scores_eq_len)
  then have "fs \<noteq> []" using assms(4) by auto
  then obtain i where i: "np_argmax fs = Inr i"
    using np_argmax_nonempty by blast
  then have "i < length fs" by (rule np_argmax_bound)
  then show ?thesis using fs i assms
    by (auto simp: get_best_threshold_def np_index_def)
qed

section \<open>Claims about \<^verbatim>\<open>get_best_threshold\<close>\<close>

text \<open>
  C1, as the code has it: the division of the F-score array has no guard. At a curve
  point with finite rates \<open>FPR \<le> 1\<close> and \<open>TPR \<ge> 0\<close> the F value is NaN when
  \<open>P + R = 0\<close> (that is \<open>FPR = 1\<close> and \<open>TPR = 0\<close>), and \<open>2PR/(P+R)\<close> at every other
  such point.
\<close>

theorem f_scores_unguarded_division:
  assumes "length tpr = length fpr" "i < length fpr" "fpr ! i = Fin x" "tpr ! i = Fin y"
    and "x \<le> 1" "0 \<le> y"
  shows "\<exists>fs. f_scores (map (np_sub (Fin 1)) fpr) tpr = Inr fs \<and> length fs = length fpr \<and>
           fs ! i = (if (1 - x) + y = 0 then NaN else Fin (fscore_formula x y))"
proof -
  have z: "(1 - x) + y = 0 \<Longrightarrow> (1 - x) * y = 0" using assms(5,6) by auto
  show ?thesis using assms(1-4) z
    by (auto simp: f_scores_eq_len np_sub_def fscore_formula_def Let_def)
qed

theorem f_scores_unguarded_division_witness:
  "\<exists>fs. f_scores (map (np_sub (Fin 1)) [Fin 0, Fin 1, Fin 1]) [Fin 0, Fin 0, Fin 1] = Inr fs \<and>
         length fs = 3 \<and> fs ! 1 = NaN"
proof -
  have h: "length [Fin 0, Fin 0, Fin 1] = length [Fin 0, Fin 1, Fin 1]"
    "(1::nat) < length [Fin 0, Fin 1, Fin 1]" "[Fin 0, Fin 1, Fin 1] ! 1 = Fin 1"
    "[Fin 0, Fin 0, Fin 1] ! 1 = Fin 0" "(1::rat) \<le> 1" "(0::rat) \<le> 0"
    by simp_all
  show ?thesis using f_scores_unguarded_division[OF h] by (simp add: numeral_3_eq_3)
qed

theorem f_scores_zero_division_counterexample:
  "np_add (np_sub (Fin 1) (Fin 1)) (Fin 0) = Fin 0 \<and>
   f_scores (map (np_sub (Fin 1)) [Fin 0, Fin 1, Fin 1]) [Fin 0, Fin 0, Fin 1] =
     Inr [Fin 0, NaN, Fin 0]"
  by (simp add: f_scores_def np_elementwise_def np_sub_def)

text \<open>
  C2, as the code has it: the function does not look at the reference labels. It raises
  what \<open>roc_curve\<close> raises; whenever \<open>roc_curve\<close> returns three non-empty arrays of
  one length it returns a threshold and an F-score, whatever the labels are; and two calls
  on which \<open>roc_curve\<close> answers the same return the same.
\<close>

theorem get_best_threshold_no_label_validation:
  "(roc_curve Y_ref Y_pred_score = Inl e \<longrightarrow>
      get_best_threshold roc_curve Y_ref Y_pred_score plot = Inl e) \<and>
   (roc_curve Y_ref Y_pred_score = Inr (fpr, tpr, thresholds) \<and> length tpr = length fpr \<and>
    length thresholds = length fpr \<and> fpr \<noteq> [] \<longrightarrow>
      (\<exists>t f. get_best_threshold roc_curve Y_ref Y_pred_score plot = Inr (t, f))) \<and>
   (roc_curve Y_ref' Y_pred_score' = roc_curve Y_ref Y_pred_score \<longrightarrow>
      get_best_threshold roc_curve Y_ref' Y_pred_score' plot' =
      get_best_threshold roc_curve Y_ref Y_pred_score plot)"
proof (intro conjI impI)
  assume "roc_curve Y_ref Y_pred_score = Inl e"
  then show "get_best_threshold roc_curve Y_ref Y_pred_score plot = Inl e"
    by (simp add: get_best_threshold_def)
next
  assume "roc_curve Y_ref Y_pred_score = Inr (fpr, tpr, thresholds) \<and> length tpr = length fpr \<and>
    length thresholds = length fpr \<and> fpr \<noteq> []"
  then show "\<exists>t f. get_best_threshold roc_curve Y_ref Y_pred_score plot = Inr (t, f)"
    using get_best_threshold_returns[of roc_curve Y_ref Y_pred_score fpr tpr thresholds plot]
    by blast
next
  assume "roc_curve Y_ref' Y_pred_score' = roc_curve Y_ref Y_pred_score"
  then show "get_best_threshold roc_curve Y_ref' Y_pred_score' plot' =
      get_best_threshold roc_curve Y_ref Y_pred_score plot"
    by (simp add: get_best_threshold_def)
qed

theorem get_best_threshold_no_label_validation_witness:
  "get_best_threshold (\<lambda>Y S. if binary_labels Y then Inr ([Fin 0, Fin 1], [Fin 0, Fin 1], [Fin 2, Fin 1])
                              else Inl ValueError) [2, 2] [Fin 1, Fin 1] True = Inl ValueError \<and>
   (\<exists>t f. get_best_threshold (\<lambda>Y S. Inr ([Fin 0, Fin 1], [Fin 0, Fin 1], [Fin 2, Fin 1]))
             [2, 2] [Fin 1, Fin 1] True = Inr (t, f)) \<and>
   get_best_threshold (\<lambda>Y S. Inr ([Fin 0, Fin 1], [Fin 0, Fin 1], [Fin 2, Fin 1])) [2, 2] [Fin 1, Fin 1] True =
   get_best_threshold (\<lambda>Y S. Inr ([Fin 0, Fin 1], [Fin 0, Fin 1], [Fin 2, Fin 1])) [0, 1] [Fin 1, Fin 1] False"
proof -
  let ?strict = "\<lambda>Y S. if binary_labels Y then Inr ([Fin 0, Fin 1], [Fin 0, Fin 1], [Fin 2, Fin 1])
                        else Inl ValueError"
  let ?lax = "\<lambda>(Y::int list) (S::npfloat list). Inr ([Fin 0, Fin 1], [Fin 0, Fin 1], [Fin 2, Fin 1])
                 :: py_error + (npfloat list \<times> npfloat list \<times> npfloat list)"
  have a: "?strict [2, 2] [Fin 1, Fin 1] = Inl ValueError"
    by (simp add: binary_labels_def)
  have b: "?lax [2, 2] [Fin 1, Fin 1] = Inr ([Fin 0, Fin 1], [Fin 0, Fin 1], [Fin 2, Fin 1]) \<and>
           length [Fin 0, Fin 1] = length [Fin 0, Fin 1] \<and>
           length [Fin 2, Fin 1] = length [Fin 0, Fin 1] \<and> [Fin 0, Fin 1] \<noteq> []"
    by simp
  have c: "?lax [2, 2] [Fin 1, Fin 1] = ?lax [0, 1] [Fin 1, Fin 1]" by simp
  from get_best_threshold_no_label_validation
         [of ?strict "[2, 2]" "[Fin 1, Fin 1]" ValueError True]
  have 1: "get_best_threshold ?strict [2, 2] [Fin 1, Fin 1] True = Inl ValueError"
    using a by blast
  from get_best_threshold_no_label_validation
         [of ?lax "[2, 2]" "[Fin 1, Fin 1]" _ True "[Fin 0, Fin 1]" "[Fin 0, Fin 1]" "[Fin 2, Fin 1]"
             "[0, 1]" "[Fin 1, Fin 1]" False]
  have 2: "(\<exists>t f. get_best_threshold ?lax [2, 2] [Fin 1, Fin 1] True = Inr (t, f)) \<and>
           get_best_threshold ?lax [0, 1] [Fin 1, Fin 1] False =
           get_best_threshold ?lax [2, 2] [Fin 1, Fin 1] True"
    using b c by simp
  from 1 2 show ?thesis by simp
qed

theorem single_class_labels_counterexample:
  "\<not> binary_labels [0, 0] \<and>
   get_best_threshold
     (\<lambda>Y S. Inr ([Fin 0, Fin (1/2), Fin 1], [NaN, NaN, NaN], [Fin (17/10), Fin (7/10), Fin (2/10)]))
     [0, 0] [Fin (2/10), Fin (7/10)] True = Inr (Fin (17/10), NaN)"
  by (simp add: binary_labels_def get_best_threshold_def f_scores_def np_elementwise_def
      np_argmax_def np_index_def np_sub_def)




text \<open>
  C6: a threshold that the function returns is one of the candidate thresholds of the ROC
  curve (so it is in the predicted scores or in that candidate set), and the function does
  return one whenever the curve is three non-empty arrays of one length.
\<close>

theorem best_threshold_is_candidate:
  assumes "roc_curve Y_ref Y_pred_score = Inr (fpr, tpr, thresholds)"
  shows "(\<forall>t f. get_best_threshold roc_curve Y_ref Y_pred_score plot = Inr (t, f) \<longrightarrow>
            t \<in> set Y_pred_score \<or> t \<in> set thresholds) \<and>
         (length tpr = length fpr \<and> length thresholds = length fpr \<and> fpr \<noteq> [] \<longrightarrow>
            (\<exists>t f. get_best_threshold roc_curve Y_ref Y_pred_score plot = Inr (t, f)))"
proof (intro conjI allI impI)
  fix t f
  assume "get_best_threshold roc_curve Y_ref Y_pred_score plot = Inr (t, f)"
  with assms have "t \<in> set thresholds"
    by (auto simp: get_best_threshold_def np_index_def split: sum.splits if_splits)
  then show "t \<in> set Y_pred_score \<or> t \<in> set thresholds" ..
next
  assume "length tpr = length fpr \<and> length thresholds = length fpr \<and> fpr \<noteq> []"
  with get_best_threshold_returns[of roc_curve Y_ref Y_pred_score fpr tpr thresholds plot] assms
  show "\<exists>t f. get_best_threshold roc_curve Y_ref Y_pred_score plot = Inr (t, f)"
    by blast
qed

theorem best_threshold_is_candidate_witness:
  "\<exists>t f. get_best_threshold
       (\<lambda>Y S. Inr ([Fin 0, Fin 0, Fin (1/2), Fin (1/2), Fin 1], [Fin 0, Fin (1/2), Fin (1/2), Fin 1, Fin 1],
                   [Fin (18/10), Fin (8/10), Fin (4/10), Fin (35/100), Fin (1/10)]))
       [0, 0, 1, 1] [Fin (1/10), Fin (4/10), Fin (35/100), Fin (8/10)] False = Inr (t, f) \<and>
     (t \<in> set [Fin (1/10), Fin (4/10), Fin (35/100), Fin (8/10)] \<or>
      t \<in> set [Fin (18/10), Fin (8/10), Fin (4/10), Fin (35/100), Fin (1/10)])"
proof -
  let ?roc = "\<lambda>(Y::int list) (S::npfloat list).
       Inr ([Fin 0, Fin 0, Fin (1/2), Fin (1/2), Fin 1], [Fin 0, Fin (1/2), Fin (1/2), Fin 1, Fin 1],
            [Fin (18/10), Fin (8/10), Fin (4/10), Fin (35/100), Fin (1/10)])
       :: py_error + (npfloat list \<times> npfloat list \<times> npfloat list)"
  have h: "?roc [0, 0, 1, 1] [Fin (1/10), Fin (4/10), Fin (35/100), Fin (8/10)] =
      Inr ([Fin 0, Fin 0, Fin (1/2), Fin (1/2), Fin 1], [Fin 0, Fin (1/2), Fin (1/2), Fin 1, Fin 1],
           [Fin (18/10), Fin (8/10), Fin (4/10), Fin (35/100), Fin (1/10)])"
    by simp
  have l: "length [Fin 0, Fin (1/2), Fin (1/2), Fin 1, Fin 1] = length [Fin 0, Fin 0, Fin (1/2), Fin (1/2), Fin 1] \<and>
      length [Fin (18/10), Fin (8/10), Fin (4/10), Fin (35/100), Fin (1/10)] =
        length [Fin 0, Fin 0, Fin (1/2), Fin (1/2), Fin 1] \<and>
      [Fin 0, Fin 0, Fin (1/2), Fin (1/2), Fin 1] \<noteq> []"
    by simp
  from best_threshold_is_candidate
         [where roc_curve = ?roc and Y_ref = "[0, 0, 1, 1]" and plot = False
            and Y_pred_score = "[Fin (1/10), Fin (4/10), Fin (35/100), Fin (8/10)]", OF h] l
  show ?thesis by blast
qed

section \<open>Properties of the labelling loops\<close>

lemma set_update_subset: "set (AList.update k v al) \<subseteq> insert (k, v) (set al)"
  by (induction al) auto

lemma label_contours_Inr:
  "label_contours df t = Inr df' \<longleftrightarrow>
     (\<exists>ov. map_of (cols df) ''overlap'' = Some ov \<and>
        df' = df\<lparr>cols := AList.update ''label'' (map (\<lambda>v. if v > t then 1 else 0) ov) (cols df)\<rparr>)"
  by (auto simp: label_contours_def get_column_def split: option.splits)

lemma label_contours_idem:
  assumes "label_contours df t = Inr df'"
  shows "label_contours df' t = Inr df'"
  using assms by (auto simp: label_contours_Inr update_conv')

lemma label_contours_total:
  "map_of (cols df) ''overlap'' \<noteq> None \<Longrightarrow> \<exists>df'. label_contours df t = Inr df'"
  by (auto simp: label_contours_Inr)

lemma label_contours_overlap:
  "label_contours df t = Inr df' \<Longrightarrow> map_of (cols df') ''overlap'' = map_of (cols df) ''overlap''"
  by (auto simp: label_contours_Inr update_conv')

lemma label_keys_keys:
  "label_keys ks d t = Inr d' \<Longrightarrow> map fst d' = map fst d"
proof (induction ks arbitrary: d)
  case Nil
  then show ?case by simp
next
  case (Cons key keys)
  from Cons.prems obtain cdat labelled where
    look: "map_of d key = Some cdat" and lab: "label_contours cdat t = Inr labelled"
    and rest: "label_keys keys (AList.update key labelled d) t = Inr d'"
    by (auto split: option.splits sum.splits)
  from look have "key \<in> set (map fst d)"
    by (metis map_of_eq_None_iff option.distinct(1) set_map)
  then have "map fst (AList.update key labelled d) = map fst d"
    by (simp add: update_keys)
  with Cons.IH[OF rest] show ?case by simp
qed

lemma label_keys_other:
  "label_keys ks d t = Inr d' \<Longrightarrow> k \<notin> set ks \<Longrightarrow> map_of d' k = map_of d k"
proof (induction ks arbitrary: d)
  case Nil
  then show ?case by simp
next
  case (Cons key keys)
  from Cons.prems(1) obtain cdat labelled where
    rest: "label_keys keys (AList.update key labelled d) t = Inr d'"
    by (auto split: option.splits sum.splits)
  from Cons.IH[OF rest] Cons.prems(2) show ?case
    by (simp add: update_conv')
qed

lemma label_keys_lookup:
  "label_keys ks d t = Inr d' \<Longrightarrow> k \<in> set ks \<Longrightarrow> map_of d k = Some df \<Longrightarrow>
   \<exists>df'. label_contours df t = Inr df' \<and> map_of d' k = Some df'"
proof (induction ks arbitrary: d df)
  case Nil
  then show ?case by simp
next
  case (Cons key keys)
  from Cons.prems(1) obtain cdat labelled where
    look: "map_of d key = Some cdat" and lab: "label_contours cdat t = Inr labelled"
    and rest: "label_keys keys (AList.update key labelled d) t = Inr d'"
    by (auto split: option.splits sum.splits)
  let ?d1 = "AList.update key labelled d"
  show ?case
  proof (cases "k = key")
    case True
    then have df: "df = cdat" using look Cons.prems(3) by simp
    have d1: "map_of ?d1 k = Some labelled" using True by (simp add: update_conv')
    show ?thesis
    proof (cases "k \<in> set keys")
      case True
      from Cons.IH[OF rest True d1] obtain df'' where
        "label_contours labelled t = Inr df''" "map_of d' k = Some df''" by blast
      moreover have "label_contours labelled t = Inr labelled"
        using lab by (rule label_contours_idem)
      ultimately show ?thesis using lab df by auto
    next
      case False
      from label_keys_other[OF rest False] d1 lab df show ?thesis by simp
    qed
  next
    case False
    then have "k \<in> set keys" using Cons.prems(2) by simp
    moreover have "map_of ?d1 k = Some df" using False Cons.prems(3) by (simp add: update_conv')
    ultimately show ?thesis using Cons.IH[OF rest] by blast
  qed
qed

lemma label_keys_fixed:
  "\<forall>k \<in> set ks. \<exists>df. map_of d k = Some df \<and> label_contours df t = Inr df \<Longrightarrow>
   label_keys ks d t = Inr d"
proof (induction ks)
  case Nil
  then show ?case by simp
next
  case (Cons key keys)
  then obtain df where df: "map_of d key = Some df" "label_contours df t = Inr df" by auto
  then have "AList.update key df d = d" by (simp add: update_triv)
  with Cons df show ?case by simp
qed

lemma label_keys_total:
  "\<forall>k \<in> set ks. \<exists>df. map_of d k = Some df \<Longrightarrow>
   \<forall>df \<in> snd ` set d. map_of (cols df) ''overlap'' \<noteq> None \<Longrightarrow>
   \<exists>d'. label_keys ks d t = Inr d'"
proof (induction ks arbitrary: d)
  case Nil
  then show ?case by simp
next
  case (Cons key keys)
  from Cons.prems(1) obtain cdat where look: "map_of d key = Some cdat" by auto
  then have "(key, cdat) \<in> set d" by (rule map_of_SomeD)
  then have "map_of (cols cdat) ''overlap'' \<noteq> None" using Cons.prems(2) by force
  then obtain labelled where lab: "label_contours cdat t = Inr labelled"
    using label_contours_total by blast
  let ?d1 = "AList.update key labelled d"
  have 1: "\<forall>k \<in> set keys. \<exists>df. map_of ?d1 k = Some df"
    using Cons.prems(1) by (auto simp: update_conv')
  have "map_of (cols labelled) ''overlap'' \<noteq> None"
    using label_contours_overlap[OF lab] \<open>map_of (cols cdat) ''overlap'' \<noteq> None\<close> by simp
  then have 2: "\<forall>df \<in> snd ` set ?d1. map_of (cols df) ''overlap'' \<noteq> None"
    using Cons.prems(2) set_update_subset[of key labelled d] by force
  from Cons.IH[OF 1 2] look lab show ?case by simp
qed

lemma label_contours_frame:
  "label_contours df t = Inr df' \<Longrightarrow> labelled_frame t df df'"
  by (auto simp: label_contours_Inr labelled_frame_def update_conv')

lemma label_split:
  assumes "label_keys (map fst d) d t = Inr d'"
  shows "map fst d' = map fst d \<and>
         (\<forall>k df. map_of d k = Some df \<longrightarrow> (\<exists>df'. map_of d' k = Some df' \<and> labelled_frame t df df'))"
proof (intro conjI allI impI)
  show "map fst d' = map fst d" using assms by (rule label_keys_keys)
next
  fix k df assume look: "map_of d k = Some df"
  then have "k \<in> set (map fst d)"
    by (metis map_of_eq_None_iff option.distinct(1) set_map)
  from label_keys_lookup[OF assms this look]
  show "\<exists>df'. map_of d' k = Some df' \<and> labelled_frame t df df'"
    using label_contours_frame by blast
qed

lemma label_split_fixed:
  assumes "label_keys (map fst d) d t = Inr d'"
  shows "label_keys (map fst d') d' t = Inr d'"
proof (rule label_keys_fixed, rule ballI)
  fix k assume "k \<in> set (map fst d')"
  then have k: "k \<in> set (map fst d)" using label_keys_keys[OF assms] by simp
  then obtain df where look: "map_of d k = Some df"
    by (metis map_of_eq_None_iff not_Some_eq set_map)
  from label_keys_lookup[OF assms k look] obtain df' where
    "label_contours df t = Inr df'" "map_of d' k = Some df'" by blast
  then show "\<exists>df. map_of d' k = Some df \<and> label_contours df t = Inr df"
    using label_contours_idem by blast
qed

lemma label_split_total:
  assumes "\<forall>df \<in> snd ` set d. map_of (cols df) ''overlap'' \<noteq> None"
  shows "\<exists>d'. label_keys (map fst d) d t = Inr d'"
proof (rule label_keys_total)
  show "\<forall>k \<in> set (map fst d). \<exists>df. map_of d k = Some df"
    by (metis map_of_eq_None_iff not_Some_eq set_map)
  show "\<forall>df \<in> snd ` set d. map_of (cols df) ''overlap'' \<noteq> None" by (rule assms)
qed

lemma label_all_contours_Inr:
  "label_all_contours tr va te t = Inr (tr', va', te') \<longleftrightarrow>
     label_keys (map fst tr) tr t = Inr tr' \<and> label_keys (map fst va) va t = Inr va' \<and>
     label_keys (map fst te) te t = Inr te'"
  by (auto simp: label_all_contours_def split: sum.splits)

section \<open>Claims about \<^verbatim>\<open>label_all_contours\<close>\<close>

text \<open>
  C5: for every threshold, when every frame has an overlap column the call returns; and
  when it returns, every split keeps its keys, every frame of every split is relabelled so
  that on each row the label is 1 if and only if the overlap is strictly greater than the
  threshold and 0 otherwise, and each split's result is what labelling that split alone
  gives.
\<close>

theorem label_all_contours_by_overlap:
  "((\<forall>df \<in> snd ` (set tr \<union> set va \<union> set te). map_of (cols df) ''overlap'' \<noteq> None) \<longrightarrow>
      (\<exists>r. label_all_contours tr va te thr = Inr r)) \<and>
   (label_all_contours tr va te thr = Inr (tr', va', te') \<longrightarrow>
      (\<forall>(d, d') \<in> {(tr, tr'), (va, va'), (te, te')}.
          map fst d' = map fst d \<and>
          (\<forall>k df. map_of d k = Some df \<longrightarrow>
             (\<exists>df'. map_of d' k = Some df' \<and> labelled_frame thr df df'))) \<and>
      label_all_contours tr [] [] thr = Inr (tr', [], []) \<and>
      label_all_contours [] va [] thr = Inr ([], va', []) \<and>
      label_all_contours [] [] te thr = Inr ([], [], te'))"
proof (intro conjI impI)
  assume a: "\<forall>df \<in> snd ` (set tr \<union> set va \<union> set te). map_of (cols df) ''overlap'' \<noteq> None"
  then have "\<forall>df \<in> snd ` set tr. map_of (cols df) ''overlap'' \<noteq> None"
    "\<forall>df \<in> snd ` set va. map_of (cols df) ''overlap'' \<noteq> None"
    "\<forall>df \<in> snd ` set te. map_of (cols df) ''overlap'' \<noteq> None"
    by auto
  then obtain tr' va' te' where "label_keys (map fst tr) tr thr = Inr tr'"
    "label_keys (map fst va) va thr = Inr va'" "label_keys (map fst te) te thr = Inr te'"
    using label_split_total by meson
  then have "label_all_contours tr va te thr = Inr (tr', va', te')"
    by (simp add: label_all_contours_Inr)
  then show "\<exists>r. label_all_contours tr va te thr = Inr r" ..
next
  assume "label_all_contours tr va te thr = Inr (tr', va', te')"
  then have k: "label_keys (map fst tr) tr thr = Inr tr'" "label_keys (map fst va) va thr = Inr va'"
    "label_keys (map fst te) te thr = Inr te'"
    by (simp_all add: label_all_contours_Inr)
  show "\<forall>(d, d') \<in> {(tr, tr'), (va, va'), (te, te')}.
          map fst d' = map fst d \<and>
          (\<forall>k df. map_of d k = Some df \<longrightarrow>
             (\<exists>df'. map_of d' k = Some df' \<and> labelled_frame thr df df'))"
    using label_split[OF k(1)] label_split[OF k(2)] label_split[OF k(3)] by simp
  show "label_all_contours tr [] [] thr = Inr (tr', [], [])"
    using k(1) by (simp add: label_all_contours_Inr)
  show "label_all_contours [] va [] thr = Inr ([], va', [])"
    using k(2) by (simp add: label_all_contours_Inr)
  show "label_all_contours [] [] te thr = Inr ([], [], te')"
    using k(3) by (simp add: label_all_contours_Inr)
qed

theorem label_all_contours_by_overlap_witness:
  "(\<exists>r. label_all_contours
          [(''t1'', \<lparr>nrows = 3, cols = [(''overlap'', [0, 6/10, 9/10])]\<rparr>),
           (''t2'', \<lparr>nrows = 2, cols = [(''overlap'', [0, 2/10])]\<rparr>)]
          []
          [(''t3'', \<lparr>nrows = 2, cols = [(''overlap'', [1/2, 1])]\<rparr>)] (1/2) = Inr r) \<and>
   label_all_contours
     [(''t1'', \<lparr>nrows = 3, cols = [(''overlap'', [0, 6/10, 9/10])]\<rparr>),
      (''t2'', \<lparr>nrows = 2, cols = [(''overlap'', [0, 2/10])]\<rparr>)]
     [] [] (1/2) =
   Inr ([(''t1'', \<lparr>nrows = 3, cols = [(''overlap'', [0, 6/10, 9/10]), (''label'', [0, 1, 1])]\<rparr>),
         (''t2'', \<lparr>nrows = 2, cols = [(''overlap'', [0, 2/10]), (''label'', [0, 0])]\<rparr>)],
        [], []) \<and>
   label_all_contours [] [] [(''t3'', \<lparr>nrows = 2, cols = [(''overlap'', [1/2, 1])]\<rparr>)] (1/2) =
   Inr ([], [], [(''t3'', \<lparr>nrows = 2, cols = [(''overlap'', [1/2, 1]), (''label'', [0, 1])]\<rparr>)])"
proof -
  let ?tr = "[(''t1'', \<lparr>nrows = 3, cols = [(''overlap'', [0, 6/10, 9/10])]\<rparr>),
              (''t2'', \<lparr>nrows = 2, cols = [(''overlap'', [0, 2/10])]\<rparr>)]"
  let ?te = "[(''t3'', \<lparr>nrows = 2, cols = [(''overlap'', [1/2, 1])]\<rparr>)]"
  let ?tr' = "[(''t1'', \<lparr>nrows = 3, cols = [(''overlap'', [0, 6/10, 9/10]), (''label'', [0, 1, 1])]\<rparr>),
               (''t2'', \<lparr>nrows = 2, cols = [(''overlap'', [0, 2/10]), (''label'', [0, 0])]\<rparr>)]"
  let ?te' = "[(''t3'', \<lparr>nrows = 2, cols = [(''overlap'', [1/2, 1]), (''label'', [0, 1])]\<rparr>)]"
  note inst = label_all_contours_by_overlap[of ?tr "[]" ?te "1/2" ?tr' "[]" ?te']
  have h: "\<forall>df \<in> snd ` (set ?tr \<union> set [] \<union> set ?te). map_of (cols df) ''overlap'' \<noteq> None"
    by simp
  have ev: "label_all_contours ?tr [] ?te (1/2) = Inr (?tr', [], ?te')"
    by (simp add: label_all_contours_def label_contours_def get_column_def)
  from inst h have 1: "\<exists>r. label_all_contours ?tr [] ?te (1/2) = Inr r" by blast
  from inst ev have 2: "label_all_contours ?tr [] [] (1/2) = Inr (?tr', [], [])"
    and 3: "label_all_contours [] [] ?te (1/2) = Inr ([], [], ?te')" by blast+
  from 1 2 3 show ?thesis by blast
qed

text \<open>
  C7: labelling is idempotent. A second call with the same threshold on the result of a
  first call returns that result unchanged.
\<close>

theorem label_all_contours_idempotent:
  assumes "label_all_contours tr va te thr = Inr (tr', va', te')"
  shows "label_all_contours tr' va' te' thr = Inr (tr', va', te')"
proof -
  from assms have k: "label_keys (map fst tr) tr thr = Inr tr'"
    "label_keys (map fst va) va thr = Inr va'" "label_keys (map fst te) te thr = Inr te'"
    by (simp_all add: label_all_contours_Inr)
  show ?thesis
    using label_split_fixed[OF k(1)] label_split_fixed[OF k(2)] label_split_fixed[OF k(3)]
    by (simp add: label_all_contours_Inr)
qed

theorem label_all_contours_idempotent_witness:
  "label_all_contours
     [(''t1'', \<lparr>nrows = 2, cols = [(''overlap'', [0, 3/10])]\<rparr>)]
     [(''t2'', \<lparr>nrows = 1, cols = [(''overlap'', [1])]\<rparr>)]
     [] 0 =
   Inr ([(''t1'', \<lparr>nrows = 2, cols = [(''overlap'', [0, 3/10]), (''label'', [0, 1])]\<rparr>)],
        [(''t2'', \<lparr>nrows = 1, cols = [(''overlap'', [1]), (''label'', [1])]\<rparr>)], []) \<and>
   label_all_contours
     [(''t1'', \<lparr>nrows = 2, cols = [(''overlap'', [0, 3/10]), (''label'', [0, 1])]\<rparr>)]
     [(''t2'', \<lparr>nrows = 1, cols = [(''overlap'', [1]), (''label'', [1])]\<rparr>)]
     [] 0 =
   Inr ([(''t1'', \<lparr>nrows = 2, cols = [(''overlap'', [0, 3/10]), (''label'', [0, 1])]\<rparr>)],
        [(''t2'', \<lparr>nrows = 1, cols = [(''overlap'', [1]), (''label'', [1])]\<rparr>)], [])"
proof -
  have once: "label_all_contours
     [(''t1'', \<lparr>nrows = 2, cols = [(''overlap'', [0, 3/10])]\<rparr>)]
     [(''t2'', \<lparr>nrows = 1, cols = [(''overlap'', [1])]\<rparr>)]
     [] 0 =
   Inr ([(''t1'', \<lparr>nrows = 2, cols = [(''overlap'', [0, 3/10]), (''label'', [0, 1])]\<rparr>)],
        [(''t2'', \<lparr>nrows = 1, cols = [(''overlap'', [1]), (''label'', [1])]\<rparr>)], [])"
    by (simp add: label_all_contours_def label_contours_def get_column_def)
  from once label_all_contours_idempotent[OF once] show ?thesis by (rule conjI)
qed

section \<open>Properties of \<^verbatim>\<open>contour_probs\<close>\<close>




lemma contour_probs_Inr:
  "contour_probs pd_to_sklearn clf a s = (Inr r, s') \<longleftrightarrow>
     (\<exists>X Y probs mp.
        pd_to_sklearn (set_column_scalar (s a) ''mel prob'' (- 1)) = Inr (X, Y) \<and>
        clf X = Inr probs \<and> mel_probs_of probs = Inr mp \<and> length mp = nrows (s a) \<and>
        r = a \<and>
        s' = s(a := (s a)\<lparr>cols := AList.update ''mel prob'' mp (cols (s a))\<rparr>))"
  by (auto simp: contour_probs_def set_column_scalar_def set_column_list_def Let_def
      split: sum.splits prod.splits if_splits)

section \<open>Claims about \<^verbatim>\<open>contour_probs\<close>\<close>



text \<open>
  C10: the function works in place. What it returns is the address it was given, and no
  other frame of the store changes; the feature projection, and so the classifier, only
  ever sees the frame whose \<^verbatim>\<open>mel prob\<close> is already \<open>-1\<close> on every record; and
  when the classifier raises, the exception comes out and the caller's frame is left with
  \<^verbatim>\<open>mel prob\<close> equal to \<open>-1\<close> on every record, its other columns as they were.
\<close>

theorem contour_probs_in_place:
  "(contour_probs pd_to_sklearn clf contour_data s = (Inr r, s') \<longrightarrow>
      r = contour_data \<and> (\<forall>b. b \<noteq> contour_data \<longrightarrow> s' b = s b)) \<and>
   (pd_to_sklearn (set_column_scalar (s contour_data) ''mel prob'' (- 1)) =
    pd_to_sklearn' (set_column_scalar (s contour_data) ''mel prob'' (- 1)) \<longrightarrow>
      contour_probs pd_to_sklearn clf contour_data s = contour_probs pd_to_sklearn' clf contour_data s) \<and>
   (pd_to_sklearn (set_column_scalar (s contour_data) ''mel prob'' (- 1)) = Inr (X, Y) \<and>
    clf X = Inl e \<longrightarrow>
      (\<exists>s1. contour_probs pd_to_sklearn clf contour_data s = (Inl e, s1) \<and>
            nrows (s1 contour_data) = nrows (s contour_data) \<and>
            map_of (cols (s1 contour_data)) ''mel prob'' =
              Some (replicate (nrows (s contour_data)) (- 1)) \<and>
            (\<forall>c. c \<noteq> ''mel prob'' \<longrightarrow>
               map_of (cols (s1 contour_data)) c = map_of (cols (s contour_data)) c) \<and>
            (\<forall>b. b \<noteq> contour_data \<longrightarrow> s1 b = s b)))"
proof (intro conjI impI)
  assume "contour_probs pd_to_sklearn clf contour_data s = (Inr r, s')"
  then show "r = contour_data" "\<forall>b. b \<noteq> contour_data \<longrightarrow> s' b = s b"
    by (auto simp: contour_probs_Inr)
next
  assume "pd_to_sklearn (set_column_scalar (s contour_data) ''mel prob'' (- 1)) =
    pd_to_sklearn' (set_column_scalar (s contour_data) ''mel prob'' (- 1))"
  then show "contour_probs pd_to_sklearn clf contour_data s =
      contour_probs pd_to_sklearn' clf contour_data s"
    by (simp add: contour_probs_def Let_def)
next
  assume "pd_to_sklearn (set_column_scalar (s contour_data) ''mel prob'' (- 1)) = Inr (X, Y) \<and>
    clf X = Inl e"
  then have "contour_probs pd_to_sklearn clf contour_data s =
      (Inl e, s(contour_data := set_column_scalar (s contour_data) ''mel prob'' (- 1)))"
    by (simp add: contour_probs_def Let_def)
  then show "\<exists>s1. contour_probs pd_to_sklearn clf contour_data s = (Inl e, s1) \<and>
            nrows (s1 contour_data) = nrows (s contour_data) \<and>
            map_of (cols (s1 contour_data)) ''mel prob'' =
              Some (replicate (nrows (s contour_data)) (- 1)) \<and>
            (\<forall>c. c \<noteq> ''mel prob'' \<longrightarrow>
               map_of (cols (s1 contour_data)) c = map_of (cols (s contour_data)) c) \<and>
            (\<forall>b. b \<noteq> contour_data \<longrightarrow> s1 b = s b)"
    by (simp add: set_column_scalar_def update_conv')
qed

theorem contour_probs_in_place_witness:
  "fst (contour_probs (\<lambda>df. Inr (cols df, ())) (\<lambda>X. Inr [[3/10, 7/10], [1/2, 1/2]]) 4
         (\<lambda>a. \<lparr>nrows = 2, cols = [(''duration'', [2, 5]), (''mel prob'', [1/4, 3/4])]\<rparr>)) = Inr 4 \<and>
   snd (contour_probs (\<lambda>df. Inr (cols df, ())) (\<lambda>X. Inr [[3/10, 7/10], [1/2, 1/2]]) 4
         (\<lambda>a. \<lparr>nrows = 2, cols = [(''duration'', [2, 5]), (''mel prob'', [1/4, 3/4])]\<rparr>)) 5 =
     \<lparr>nrows = 2, cols = [(''duration'', [2, 5]), (''mel prob'', [1/4, 3/4])]\<rparr> \<and>
   fst (contour_probs (\<lambda>df. Inr (cols df, ())) (\<lambda>X. Inl (Collaborator ''shape mismatch'')) 4
         (\<lambda>a. \<lparr>nrows = 2, cols = [(''duration'', [2, 5]), (''mel prob'', [1/4, 3/4])]\<rparr>)) =
     Inl (Collaborator ''shape mismatch'') \<and>
   map_of (cols (snd (contour_probs (\<lambda>df. Inr (cols df, ())) (\<lambda>X. Inl (Collaborator ''shape mismatch'')) 4
         (\<lambda>a. \<lparr>nrows = 2, cols = [(''duration'', [2, 5]), (''mel prob'', [1/4, 3/4])]\<rparr>)) 4))
     ''mel prob'' = Some [- 1, - 1]"
proof -
  let ?pd = "\<lambda>df::dataframe. Inr (cols df, ()) :: py_error + ((string \<times> rat list) list \<times> unit)"
  let ?clf = "\<lambda>X::(string \<times> rat list) list. Inr [[3/10, 7/10], [1/2, 1/2]] :: py_error + rat list list"
  let ?bad = "\<lambda>X::(string \<times> rat list) list. Inl (Collaborator ''shape mismatch'') :: py_error + rat list list"
  let ?s = "\<lambda>a::nat. \<lparr>nrows = 2, cols = [(''duration'', [2, 5]), (''mel prob'', [1/4, 3/4])]\<rparr>"
  let ?X = "[(''duration'', [2, 5]), (''mel prob'', [- 1, - 1])] :: (string \<times> rat list) list"
  have 1: "fst (contour_probs ?pd ?clf 4 ?s) = Inr 4"
    by (simp add: contour_probs_def set_column_scalar_def set_column_list_def np_index_def
        numeral_2_eq_2)
  have ok: "contour_probs ?pd ?clf 4 ?s = (Inr 4, snd (contour_probs ?pd ?clf 4 ?s))"
    by (rule prod_eqI) (simp_all only: fst_conv snd_conv 1)
  note same = contour_probs_in_place
         [where pd_to_sklearn = ?pd and clf = ?clf and contour_data = 4 and s = ?s and r = 4
            and s' = "snd (contour_probs ?pd ?clf 4 ?s)", THEN conjunct1, rule_format, OF ok]
  from same have "(5::nat) \<noteq> 4 \<longrightarrow> snd (contour_probs ?pd ?clf 4 ?s) 5 = ?s 5"
    by (elim conjE allE)
  then have 2: "snd (contour_probs ?pd ?clf 4 ?s) 5 = ?s 5"
    by (rule mp) simp
  have h: "?pd (set_column_scalar (?s 4) ''mel prob'' (- 1)) = Inr (?X, ()) \<and>
      ?bad ?X = Inl (Collaborator ''shape mismatch'')"
    by (simp add: set_column_scalar_def numeral_2_eq_2)
  note left = contour_probs_in_place
         [where pd_to_sklearn = ?pd and clf = ?bad and contour_data = 4 and s = ?s and X = ?X
            and Y = "()" and e = "Collaborator ''shape mismatch''",
          THEN conjunct2, THEN conjunct2, rule_format, OF h]
  then obtain s1 where s1: "contour_probs ?pd ?bad 4 ?s = (Inl (Collaborator ''shape mismatch''), s1)"
    and m1: "map_of (cols (s1 4)) ''mel prob'' = Some (replicate (nrows (?s 4)) (- 1))"
    by (elim exE conjE)
  from s1 have 3: "fst (contour_probs ?pd ?bad 4 ?s) = Inl (Collaborator ''shape mismatch'')"
    by (simp only: fst_conv)
  from s1 have "snd (contour_probs ?pd ?bad 4 ?s) = s1" by (simp only: snd_conv)
  with m1 have 4: "map_of (cols (snd (contour_probs ?pd ?bad 4 ?s) 4)) ''mel prob'' = Some [- 1, - 1]"
    by (simp only: dataframe.simps replicate.simps numeral_2_eq_2)
  from 1 2 3 4 show ?thesis by (intro conjI)
qed

section \<open>Properties of \<^verbatim>\<open>olap_stats\<close>\<close>

lemma red_list_Inr:
  "red_list dfs = Inr red \<Longrightarrow> list_all2 (\<lambda>df ov. map_of (cols df) ''overlap'' = Some ov) dfs red"
  by (induction dfs arbitrary: red)
     (auto simp: get_column_def split: sum.splits option.splits)

lemma red_list_total:
  "\<forall>df \<in> set dfs. map_of (cols df) ''overlap'' \<noteq> None \<Longrightarrow> \<exists>red. red_list dfs = Inr red"
  by (induction dfs) (auto simp: get_column_def split: option.splits)

lemma length_concat_columns:
  "list_all2 (\<lambda>df ov. map_of (cols df) ''overlap'' = Some ov) dfs red \<Longrightarrow>
   \<forall>df \<in> set dfs. \<forall>ov. map_of (cols df) ''overlap'' = Some ov \<longrightarrow> length ov = nrows df \<Longrightarrow>
   length (concat red) = sum_list (map nrows dfs)"
  by (induction dfs red rule: list_all2_induct) auto

lemma partition_zero_positive:
  "\<forall>v \<in> set xs. (0::rat) \<le> v \<Longrightarrow>
   length (filter (\<lambda>v. v > 0) xs) + length (filter (\<lambda>v. v = 0) xs) = length xs"
  by (induction xs) auto

lemma olap_stats_Inr:
  "olap_stats describe d = Inr (p, z) \<longleftrightarrow>
     (\<exists>red. red_list (map snd d) = Inr red \<and>
        p = describe (filter (\<lambda>v. v > 0) (concat red)) \<and>
        z = describe (filter (\<lambda>v. v = 0) (concat red)))"
  by (cases "red_list (map snd d)") (auto simp: olap_stats_def Let_def join_contours_def)

lemma concat_columns_nonneg:
  "list_all2 (\<lambda>df ov. map_of (cols df) ''overlap'' = Some ov) dfs red \<Longrightarrow>
   \<forall>df \<in> set dfs. \<forall>ov. map_of (cols df) ''overlap'' = Some ov \<longrightarrow> (\<forall>v \<in> set ov. (0::rat) \<le> v) \<Longrightarrow>
   \<forall>v \<in> set (concat red). 0 \<le> v"
  by (induction dfs red rule: list_all2_induct) auto

section \<open>Claims about \<^verbatim>\<open>olap_stats\<close>\<close>

text \<open>
  C8: when the train map is not empty and every frame of it has an overlap column, the
  call returns; and what it returns is the description of the strictly positive values and
  the description of the zero values of the concatenation, in the order of the map, of the
  overlap columns of all tracks. When there is one overlap per record and every overlap
  lies in \<open>[0, 1]\<close>, the sizes of the two selections add up to the total number
  of records.
\<close>

theorem olap_stats_partition:
  "(train_contour_dict \<noteq> [] \<and>
    (\<forall>df \<in> snd ` set train_contour_dict. map_of (cols df) ''overlap'' \<noteq> None) \<longrightarrow>
      (\<exists>r. olap_stats describe train_contour_dict = Inr r)) \<and>
   (olap_stats describe train_contour_dict = Inr (partial_olap_stats, zero_olap_stats) \<longrightarrow>
      (\<exists>red.
         list_all2 (\<lambda>df ov. map_of (cols df) ''overlap'' = Some ov) (map snd train_contour_dict) red \<and>
         partial_olap_stats = describe (filter (\<lambda>v. v > 0) (concat red)) \<and>
         zero_olap_stats = describe (filter (\<lambda>v. v = 0) (concat red)) \<and>
         ((\<forall>df \<in> snd ` set train_contour_dict. \<forall>ov.
              map_of (cols df) ''overlap'' = Some ov \<longrightarrow>
                length ov = nrows df \<and> (\<forall>v \<in> set ov. 0 \<le> v \<and> v \<le> 1)) \<longrightarrow>
            length (filter (\<lambda>v. v > 0) (concat red)) + length (filter (\<lambda>v. v = 0) (concat red)) =
              sum_list (map (nrows \<circ> snd) train_contour_dict))))"
proof (intro conjI impI)
  assume "train_contour_dict \<noteq> [] \<and>
    (\<forall>df \<in> snd ` set train_contour_dict. map_of (cols df) ''overlap'' \<noteq> None)"
  then have "\<forall>df \<in> set (map snd train_contour_dict). map_of (cols df) ''overlap'' \<noteq> None"
    by simp
  then obtain red where "red_list (map snd train_contour_dict) = Inr red"
    using red_list_total by blast
  then have "olap_stats describe train_contour_dict =
      Inr (describe (filter (\<lambda>v. v > 0) (concat red)), describe (filter (\<lambda>v. v = 0) (concat red)))"
    by (simp only: olap_stats_Inr) blast
  then show "\<exists>r. olap_stats describe train_contour_dict = Inr r" ..
next
  assume "olap_stats describe train_contour_dict = Inr (partial_olap_stats, zero_olap_stats)"
  then obtain red where red: "red_list (map snd train_contour_dict) = Inr red"
    and p: "partial_olap_stats = describe (filter (\<lambda>v. v > 0) (concat red))"
    and z: "zero_olap_stats = describe (filter (\<lambda>v. v = 0) (concat red))"
    unfolding olap_stats_Inr by (elim exE conjE)
  have all2: "list_all2 (\<lambda>df ov. map_of (cols df) ''overlap'' = Some ov) (map snd train_contour_dict) red"
    using red by (rule red_list_Inr)
  show "\<exists>red.
         list_all2 (\<lambda>df ov. map_of (cols df) ''overlap'' = Some ov) (map snd train_contour_dict) red \<and>
         partial_olap_stats = describe (filter (\<lambda>v. v > 0) (concat red)) \<and>
         zero_olap_stats = describe (filter (\<lambda>v. v = 0) (concat red)) \<and>
         ((\<forall>df \<in> snd ` set train_contour_dict. \<forall>ov.
              map_of (cols df) ''overlap'' = Some ov \<longrightarrow>
                length ov = nrows df \<and> (\<forall>v \<in> set ov. 0 \<le> v \<and> v \<le> 1)) \<longrightarrow>
            length (filter (\<lambda>v. v > 0) (concat red)) + length (filter (\<lambda>v. v = 0) (concat red)) =
              sum_list (map (nrows \<circ> snd) train_contour_dict))"
  proof (intro exI[of _ red] conjI impI)
    show "list_all2 (\<lambda>df ov. map_of (cols df) ''overlap'' = Some ov) (map snd train_contour_dict) red"
      by (rule all2)
    show "partial_olap_stats = describe (filter (\<lambda>v. v > 0) (concat red))" by (rule p)
    show "zero_olap_stats = describe (filter (\<lambda>v. v = 0) (concat red))" by (rule z)
  next
    assume wf: "\<forall>df \<in> snd ` set train_contour_dict. \<forall>ov.
              map_of (cols df) ''overlap'' = Some ov \<longrightarrow>
                length ov = nrows df \<and> (\<forall>v \<in> set ov. 0 \<le> v \<and> v \<le> 1)"
    then have wf1: "\<forall>df \<in> set (map snd train_contour_dict). \<forall>ov.
        map_of (cols df) ''overlap'' = Some ov \<longrightarrow> length ov = nrows df"
      and wf2: "\<forall>df \<in> set (map snd train_contour_dict). \<forall>ov.
        map_of (cols df) ''overlap'' = Some ov \<longrightarrow> (\<forall>v \<in> set ov. 0 \<le> v)"
      by simp_all
    have len: "length (concat red) = sum_list (map nrows (map snd train_contour_dict))"
      using all2 wf1 by (rule length_concat_columns)
    have "\<forall>v \<in> set (concat red). 0 \<le> v"
      using all2 wf2 by (rule concat_columns_nonneg)
    then have "length (filter (\<lambda>v. v > 0) (concat red)) + length (filter (\<lambda>v. v = 0) (concat red)) =
        length (concat red)"
      by (rule partition_zero_positive)
    with len show "length (filter (\<lambda>v. v > 0) (concat red)) + length (filter (\<lambda>v. v = 0) (concat red)) =
        sum_list (map (nrows \<circ> snd) train_contour_dict)"
      by (simp only: map_map)
  qed
qed

theorem olap_stats_partition_witness:
  "olap_stats (\<lambda>xs. (length xs, sum_list xs / of_nat (length xs)))
     [(''t1'', \<lparr>nrows = 3, cols = [(''overlap'', [0, 6/10, 9/10])]\<rparr>),
      (''t2'', \<lparr>nrows = 2, cols = [(''overlap'', [0, 2/10])]\<rparr>)] =
   Inr ((3, (6/10 + 9/10 + 2/10) / 3), (2, 0)) \<and>
   (\<exists>red::rat list list.
      length (filter (\<lambda>v. v > 0) (concat red)) + length (filter (\<lambda>v. v = 0) (concat red)) =
      sum_list (map (nrows \<circ> snd)
        [(''t1'', \<lparr>nrows = 3, cols = [(''overlap'', [0, 6/10, 9/10])]\<rparr>),
         (''t2'', \<lparr>nrows = 2, cols = [(''overlap'', [0, 2/10])]\<rparr>)]) \<and>
      (3, (6/10 + 9/10 + 2/10) / 3) =
        (length (filter (\<lambda>v. v > 0) (concat red)),
         sum_list (filter (\<lambda>v. v > 0) (concat red)) /
           of_nat (length (filter (\<lambda>v. v > 0) (concat red))))) \<and>
   sum_list (map (nrows \<circ> snd)
     [(''t1'', \<lparr>nrows = 3, cols = [(''overlap'', [0, 6/10, 9/10])]\<rparr>),
      (''t2'', \<lparr>nrows = 2, cols = [(''overlap'', [0, 2/10])]\<rparr>)]) = 5"
proof -
  let ?describe = "\<lambda>xs::rat list. (length xs, sum_list xs / of_nat (length xs))"
  let ?d = "[(''t1'', \<lparr>nrows = 3, cols = [(''overlap'', [0, 6/10, 9/10])]\<rparr>),
             (''t2'', \<lparr>nrows = 2, cols = [(''overlap'', [0, 2/10])]\<rparr>)]"
  note inst = olap_stats_partition[where describe = ?describe and train_contour_dict = ?d
      and partial_olap_stats = "(3, (6/10 + 9/10 + 2/10) / 3)" and zero_olap_stats = "(2, 0)"]
  have h: "?d \<noteq> [] \<and> (\<forall>df \<in> snd ` set ?d. map_of (cols df) ''overlap'' \<noteq> None)"
    by simp
  from inst[THEN conjunct1, THEN mp, OF h]
  have 1: "\<exists>r. olap_stats ?describe ?d = Inr r" .
  have 2: "olap_stats ?describe ?d = Inr ((3, (6/10 + 9/10 + 2/10) / 3), (2, 0))"
    by (simp add: olap_stats_def join_contours_def get_column_def)
  have wf: "\<forall>df \<in> snd ` set ?d. \<forall>ov. map_of (cols df) ''overlap'' = Some ov \<longrightarrow>
      length ov = nrows df \<and> (\<forall>v \<in> set ov. 0 \<le> v \<and> v \<le> 1)"
    by simp
  from inst[THEN conjunct2, THEN mp, OF 2] obtain red where
    p: "(3, (6/10 + 9/10 + 2/10) / 3) = ?describe (filter (\<lambda>v. v > 0) (concat red))"
    and cnt: "(\<forall>df \<in> snd ` set ?d. \<forall>ov. map_of (cols df) ''overlap'' = Some ov \<longrightarrow>
          length ov = nrows df \<and> (\<forall>v \<in> set ov. 0 \<le> v \<and> v \<le> 1)) \<longrightarrow>
       length (filter (\<lambda>v. v > 0) (concat red)) + length (filter (\<lambda>v. v = 0) (concat red)) =
       sum_list (map (nrows \<circ> snd) ?d)"
    by (elim exE conjE)
  from cnt wf have 3: "length (filter (\<lambda>v. v > 0) (concat red)) +
      length (filter (\<lambda>v. v = 0) (concat red)) = sum_list (map (nrows \<circ> snd) ?d)"
    by (rule mp)
  have 4: "sum_list (map (nrows \<circ> snd) ?d) = 5" by simp
  from 3 p have "\<exists>red. length (filter (\<lambda>v. v > 0) (concat red)) +
      length (filter (\<lambda>v. v = 0) (concat red)) = sum_list (map (nrows \<circ> snd) ?d) \<and>
      (3, (6/10 + 9/10 + 2/10) / 3) = ?describe (filter (\<lambda>v. v > 0) (concat red))"
    by (intro exI[of _ red] conjI)
  with 2 4 show ?thesis by (intro conjI)
qed

section \<open>Properties of the loading loops\<close>

lemma train_loop_Cons:
  "train_loop w (track # tracks) m d = Inr d' \<longleftrightarrow>
     (\<exists>olap adat. track_overlap w m track olap adat \<and>
        train_loop w tracks m (AList.update track olap d) = Inr d')"
  by (auto simp: track_overlap_def split: sum.splits)

lemma annot_loop_Cons:
  "annot_loop w (track # tracks) m d a = Inr r \<longleftrightarrow>
     (\<exists>olap adat. track_overlap w m track olap adat \<and>
        annot_loop w tracks m (AList.update track olap d) (AList.update track adat a) = Inr r)"
  by (auto simp: track_overlap_def split: sum.splits)

lemma track_overlap_unique:
  "track_overlap w m t olap adat \<Longrightarrow> track_overlap w m t olap' adat' \<Longrightarrow>
   olap' = olap \<and> adat' = adat"
  by (auto simp: track_overlap_def)

lemma train_loop_keys:
  "train_loop w ts m d = Inr d' \<Longrightarrow>
   set (map fst d') = set (map fst d) \<union> set ts \<and> (distinct (map fst d) \<longrightarrow> distinct (map fst d'))"
proof (induction ts arbitrary: d)
  case Nil
  then show ?case by simp
next
  case (Cons track tracks)
  from Cons.prems obtain olap where
    rest: "train_loop w tracks m (AList.update track olap d) = Inr d'"
    unfolding train_loop_Cons by blast
  from Cons.IH[OF rest] show ?case
    using dom_update[of track olap d] distinct_update[of d track olap] by auto
qed

lemma train_loop_other:
  "train_loop w ts m d = Inr d' \<Longrightarrow> t \<notin> set ts \<Longrightarrow> map_of d' t = map_of d t"
proof (induction ts arbitrary: d)
  case Nil
  then show ?case by simp
next
  case (Cons track tracks)
  from Cons.prems(1) obtain olap where
    rest: "train_loop w tracks m (AList.update track olap d) = Inr d'"
    unfolding train_loop_Cons by blast
  from Cons.IH[OF rest] Cons.prems(2) show ?case by (simp add: update_conv')
qed

lemma train_loop_lookup:
  "train_loop w ts m d = Inr d' \<Longrightarrow> t \<in> set ts \<Longrightarrow>
   \<exists>olap adat. track_overlap w m t olap adat \<and> map_of d' t = Some olap"
proof (induction ts arbitrary: d)
  case Nil
  then show ?case by simp
next
  case (Cons track tracks)
  from Cons.prems(1) obtain olap adat where
    tr: "track_overlap w m track olap adat"
    and rest: "train_loop w tracks m (AList.update track olap d) = Inr d'"
    unfolding train_loop_Cons by blast
  show ?case
  proof (cases "t \<in> set tracks")
    case True
    then show ?thesis using Cons.IH[OF rest] by blast
  next
    case False
    then have "t = track" using Cons.prems(2) by simp
    moreover have "map_of d' t = map_of (AList.update track olap d) t"
      using rest False by (rule train_loop_other)
    ultimately show ?thesis using tr by (auto simp: update_conv')
  qed
qed

lemma train_loop_total:
  "\<forall>t \<in> set ts. \<exists>olap adat. track_overlap w m t olap adat \<Longrightarrow> \<exists>d'. train_loop w ts m d = Inr d'"
proof (induction ts arbitrary: d)
  case Nil
  then show ?case by simp
next
  case (Cons track tracks)
  then obtain olap adat where tr: "track_overlap w m track olap adat" by auto
  from Cons have "\<exists>d'. train_loop w tracks m (AList.update track olap d) = Inr d'" by simp
  with tr show ?case unfolding train_loop_Cons by blast
qed

lemma annot_loop_keys:
  "annot_loop w ts m d a = Inr (d', a') \<Longrightarrow>
   set (map fst d') = set (map fst d) \<union> set ts \<and> (distinct (map fst d) \<longrightarrow> distinct (map fst d')) \<and>
   set (map fst a') = set (map fst a) \<union> set ts \<and> (distinct (map fst a) \<longrightarrow> distinct (map fst a'))"
proof (induction ts arbitrary: d a)
  case Nil
  then show ?case by simp
next
  case (Cons track tracks)
  from Cons.prems obtain olap adat where
    rest: "annot_loop w tracks m (AList.update track olap d) (AList.update track adat a) = Inr (d', a')"
    unfolding annot_loop_Cons by blast
  from Cons.IH[OF rest] show ?case
    using dom_update[of track olap d] distinct_update[of d track olap]
      dom_update[of track adat a] distinct_update[of a track adat] by auto
qed

lemma annot_loop_other:
  "annot_loop w ts m d a = Inr (d', a') \<Longrightarrow> t \<notin> set ts \<Longrightarrow>
   map_of d' t = map_of d t \<and> map_of a' t = map_of a t"
proof (induction ts arbitrary: d a)
  case Nil
  then show ?case by simp
next
  case (Cons track tracks)
  from Cons.prems(1) obtain olap adat where
    rest: "annot_loop w tracks m (AList.update track olap d) (AList.update track adat a) = Inr (d', a')"
    unfolding annot_loop_Cons by blast
  from Cons.IH[OF rest] Cons.prems(2) show ?case by (simp add: update_conv')
qed

lemma annot_loop_lookup:
  "annot_loop w ts m d a = Inr (d', a') \<Longrightarrow> t \<in> set ts \<Longrightarrow>
   \<exists>olap adat. track_overlap w m t olap adat \<and> map_of d' t = Some olap \<and> map_of a' t = Some adat"
proof (induction ts arbitrary: d a)
  case Nil
  then show ?case by simp
next
  case (Cons track tracks)
  from Cons.prems(1) obtain olap adat where
    tr: "track_overlap w m track olap adat"
    and rest: "annot_loop w tracks m (AList.update track olap d) (AList.update track adat a) = Inr (d', a')"
    unfolding annot_loop_Cons by blast
  show ?case
  proof (cases "t \<in> set tracks")
    case True
    then show ?thesis using Cons.IH[OF rest] by blast
  next
    case False
    then have "t = track" using Cons.prems(2) by simp
    moreover have "map_of d' t = map_of (AList.update track olap d) t \<and>
        map_of a' t = map_of (AList.update track adat a) t"
      using rest False by (rule annot_loop_other)
    ultimately show ?thesis using tr by (auto simp: update_conv')
  qed
qed

lemma annot_loop_total:
  "\<forall>t \<in> set ts. \<exists>olap adat. track_overlap w m t olap adat \<Longrightarrow> \<exists>r. annot_loop w ts m d a = Inr r"
proof (induction ts arbitrary: d a)
  case Nil
  then show ?case by simp
next
  case (Cons track tracks)
  then obtain olap adat where tr: "track_overlap w m track olap adat" by auto
  from Cons have "\<exists>r. annot_loop w tracks m (AList.update track olap d) (AList.update track adat a) = Inr r"
    by simp
  with tr show ?case unfolding annot_loop_Cons by blast
qed

lemma compute_all_overlaps_Inr:
  "compute_all_overlaps w train valid test m = Inr (train_d, valid_d, valid_a, test_d, test_a) \<longleftrightarrow>
     train_loop w train m [] = Inr train_d \<and>
     annot_loop w valid m [] [] = Inr (valid_d, valid_a) \<and>
     annot_loop w test m [] [] = Inr (test_d, test_a)"
  by (auto simp: compute_all_overlaps_def split: sum.splits)

section \<open>Claims about \<^verbatim>\<open>compute_all_overlaps\<close>\<close>

text \<open>
  C9: when the data of every track loads and its overlap computes, the call returns; and
  what it returns is, in this order, the train map, the validation map, the validation
  annotations, the test map and the test annotations. Each contour map has exactly one
  entry for each track of its list, and no other key, holding the contour table with
  overlaps of that track; the two annotation maps hold the loaded annotation of each
  validation and each test track; and a training track that is in neither of these two
  lists has no annotation in them.
\<close>

theorem compute_all_overlaps_maps:
  "((\<forall>t \<in> set train_tracks \<union> set valid_tracks \<union> set test_tracks.
       \<exists>olap adat. track_overlap w meltype t olap adat) \<longrightarrow>
      (\<exists>r. compute_all_overlaps w train_tracks valid_tracks test_tracks meltype = Inr r)) \<and>
   (compute_all_overlaps w train_tracks valid_tracks test_tracks meltype =
      Inr (train_contour_dict, valid_contour_dict, valid_annot_dict,
           test_contour_dict, test_annot_dict) \<longrightarrow>
      distinct (map fst train_contour_dict) \<and> set (map fst train_contour_dict) = set train_tracks \<and>
      distinct (map fst valid_contour_dict) \<and> set (map fst valid_contour_dict) = set valid_tracks \<and>
      distinct (map fst valid_annot_dict) \<and> set (map fst valid_annot_dict) = set valid_tracks \<and>
      distinct (map fst test_contour_dict) \<and> set (map fst test_contour_dict) = set test_tracks \<and>
      distinct (map fst test_annot_dict) \<and> set (map fst test_annot_dict) = set test_tracks \<and>
      (\<forall>t \<in> set train_tracks. \<exists>olap adat.
          track_overlap w meltype t olap adat \<and> map_of train_contour_dict t = Some olap) \<and>
      (\<forall>t \<in> set valid_tracks. \<exists>olap adat.
          track_overlap w meltype t olap adat \<and> map_of valid_contour_dict t = Some olap \<and>
          map_of valid_annot_dict t = Some adat) \<and>
      (\<forall>t \<in> set test_tracks. \<exists>olap adat.
          track_overlap w meltype t olap adat \<and> map_of test_contour_dict t = Some olap \<and>
          map_of test_annot_dict t = Some adat) \<and>
      (\<forall>t \<in> set train_tracks.
          (t \<notin> set valid_tracks \<longrightarrow> map_of valid_annot_dict t = None) \<and>
          (t \<notin> set test_tracks \<longrightarrow> map_of test_annot_dict t = None)))"
proof (intro conjI impI)
  assume a: "\<forall>t \<in> set train_tracks \<union> set valid_tracks \<union> set test_tracks.
       \<exists>olap adat. track_overlap w meltype t olap adat"
  then have "\<forall>t \<in> set train_tracks. \<exists>olap adat. track_overlap w meltype t olap adat"
    "\<forall>t \<in> set valid_tracks. \<exists>olap adat. track_overlap w meltype t olap adat"
    "\<forall>t \<in> set test_tracks. \<exists>olap adat. track_overlap w meltype t olap adat"
    by auto
  then obtain tr va te where "train_loop w train_tracks meltype [] = Inr tr"
    "annot_loop w valid_tracks meltype [] [] = Inr va" "annot_loop w test_tracks meltype [] [] = Inr te"
    using train_loop_total annot_loop_total by meson
  moreover obtain vd vann td tann where "va = (vd, vann)" "te = (td, tann)"
    by (cases va; cases te) blast
  ultimately have "compute_all_overlaps w train_tracks valid_tracks test_tracks meltype =
      Inr (tr, vd, vann, td, tann)"
    by (simp add: compute_all_overlaps_Inr)
  then show "\<exists>r. compute_all_overlaps w train_tracks valid_tracks test_tracks meltype = Inr r" ..
next
  assume "compute_all_overlaps w train_tracks valid_tracks test_tracks meltype =
      Inr (train_contour_dict, valid_contour_dict, valid_annot_dict,
           test_contour_dict, test_annot_dict)"
  then have tr: "train_loop w train_tracks meltype [] = Inr train_contour_dict"
    and va: "annot_loop w valid_tracks meltype [] [] = Inr (valid_contour_dict, valid_annot_dict)"
    and te: "annot_loop w test_tracks meltype [] [] = Inr (test_contour_dict, test_annot_dict)"
    by (simp_all add: compute_all_overlaps_Inr)
  note ktr = train_loop_keys[OF tr] and kva = annot_loop_keys[OF va] and kte = annot_loop_keys[OF te]
  show "distinct (map fst train_contour_dict)" "set (map fst train_contour_dict) = set train_tracks"
    using ktr by simp_all
  show "distinct (map fst valid_contour_dict)" "set (map fst valid_contour_dict) = set valid_tracks"
    "distinct (map fst valid_annot_dict)" "set (map fst valid_annot_dict) = set valid_tracks"
    using kva by simp_all
  show "distinct (map fst test_contour_dict)" "set (map fst test_contour_dict) = set test_tracks"
    "distinct (map fst test_annot_dict)" "set (map fst test_annot_dict) = set test_tracks"
    using kte by simp_all
  show "\<forall>t \<in> set train_tracks. \<exists>olap adat.
          track_overlap w meltype t olap adat \<and> map_of train_contour_dict t = Some olap"
    using train_loop_lookup[OF tr] by blast
  show "\<forall>t \<in> set valid_tracks. \<exists>olap adat.
          track_overlap w meltype t olap adat \<and> map_of valid_contour_dict t = Some olap \<and>
          map_of valid_annot_dict t = Some adat"
    using annot_loop_lookup[OF va] by blast
  show "\<forall>t \<in> set test_tracks. \<exists>olap adat.
          track_overlap w meltype t olap adat \<and> map_of test_contour_dict t = Some olap \<and>
          map_of test_annot_dict t = Some adat"
    using annot_loop_lookup[OF te] by blast
  show "\<forall>t \<in> set train_tracks.
          (t \<notin> set valid_tracks \<longrightarrow> map_of valid_annot_dict t = None) \<and>
          (t \<notin> set test_tracks \<longrightarrow> map_of test_annot_dict t = None)"
    using annot_loop_other[OF va] annot_loop_other[OF te] by simp
qed

theorem compute_all_overlaps_maps_witness:
  "compute_all_overlaps
     \<lparr>environ = [''MEDLEYDB_PATH'' \<mapsto> ''/mdb''], load_contour_data = (\<lambda>p. Inr p),
      load_annotation = (\<lambda>p. Inr p), compute_overlap = (\<lambda>c a. Inr (''overlap of '' @ c))\<rparr>
     [''a'', ''b'', ''a''] [''c''] [''d''] 2 =
   Inr ([(''a'', ''overlap of melodia_contours/a_MIX_vamp_melodia-contours_melodia-contours_contoursall.csv''),
         (''b'', ''overlap of melodia_contours/b_MIX_vamp_melodia-contours_melodia-contours_contoursall.csv'')],
        [(''c'', ''overlap of melodia_contours/c_MIX_vamp_melodia-contours_melodia-contours_contoursall.csv'')],
        [(''c'', ''/mdb/Annotations/Melody_Annotations/MELODY2/c_MELODY2.csv'')],
        [(''d'', ''overlap of melodia_contours/d_MIX_vamp_melodia-contours_melodia-contours_contoursall.csv'')],
        [(''d'', ''/mdb/Annotations/Melody_Annotations/MELODY2/d_MELODY2.csv'')]) \<and>
   map_of [(''c'', ''/mdb/Annotations/Melody_Annotations/MELODY2/c_MELODY2.csv'')] ''a'' = None \<and>
   map_of [(''d'', ''/mdb/Annotations/Melody_Annotations/MELODY2/d_MELODY2.csv'')] ''a'' = None"
proof -
  let ?w = "\<lparr>environ = [''MEDLEYDB_PATH'' \<mapsto> ''/mdb''], load_contour_data = (\<lambda>p. Inr p),
      load_annotation = (\<lambda>p. Inr p), compute_overlap = (\<lambda>c a. Inr (''overlap of '' @ c))\<rparr>
      :: (string, string) collaborators"
  let ?train = "[(''a'', ''overlap of melodia_contours/a_MIX_vamp_melodia-contours_melodia-contours_contoursall.csv''),
         (''b'', ''overlap of melodia_contours/b_MIX_vamp_melodia-contours_melodia-contours_contoursall.csv'')]"
  let ?valid = "[(''c'', ''overlap of melodia_contours/c_MIX_vamp_melodia-contours_melodia-contours_contoursall.csv'')]"
  let ?vannot = "[(''c'', ''/mdb/Annotations/Melody_Annotations/MELODY2/c_MELODY2.csv'')]"
  let ?test = "[(''d'', ''overlap of melodia_contours/d_MIX_vamp_melodia-contours_melodia-contours_contoursall.csv'')]"
  let ?tannot = "[(''d'', ''/mdb/Annotations/Melody_Annotations/MELODY2/d_MELODY2.csv'')]"
  note inst = compute_all_overlaps_maps[where w = ?w and train_tracks = "[''a'', ''b'', ''a'']"
      and valid_tracks = "[''c'']" and test_tracks = "[''d'']" and meltype = 2
      and train_contour_dict = ?train and valid_contour_dict = ?valid and valid_annot_dict = ?vannot
      and test_contour_dict = ?test and test_annot_dict = ?tannot]
  have h: "\<forall>t \<in> set [''a'', ''b'', ''a''] \<union> set [''c''] \<union> set [''d''].
      \<exists>olap adat. track_overlap ?w 2 t olap adat"
    by (simp add: track_overlap_def get_data_files_def path_join_def str_int_def
        str_nat.simps[of 2] Let_def)
  from inst[THEN conjunct1, THEN mp, OF h]
  have 1: "\<exists>r. compute_all_overlaps ?w [''a'', ''b'', ''a''] [''c''] [''d''] 2 = Inr r" .
  have 2: "compute_all_overlaps ?w [''a'', ''b'', ''a''] [''c''] [''d''] 2 =
      Inr (?train, ?valid, ?vannot, ?test, ?tannot)"
    by (simp add: compute_all_overlaps_def get_data_files_def path_join_def str_int_def
        str_nat.simps[of 2] Let_def)
  from inst[THEN conjunct2, THEN mp, OF 2]
  have "\<forall>t \<in> set [''a'', ''b'', ''a''].
          (t \<notin> set [''c''] \<longrightarrow> map_of ?vannot t = None) \<and>
          (t \<notin> set [''d''] \<longrightarrow> map_of ?tannot t = None)"
    by (elim conjE) assumption
  then have 3: "map_of ?vannot ''a'' = None \<and> map_of ?tannot ''a'' = None" by simp
  from 2 3 show ?thesis by (rule conjI)
qed

end
